theory Spec2Isabelle
  imports Complex_Main "HOL-Library.Multiset"
begin

section \<open>Chapter records\<close>

text \<open>
  A chapter is a Python dict with string-or-None fields, built by
  \<open>extract_chapter_info\<close> (src/scrape.py, lines 446-457) and read back from the
  per-novel JSON file. \<open>d.get(k)\<close> is the field, \<open>None\<close> when it is null or absent.
  The dict's \<open>id\<close> field is called \<open>chapter_id\<close> here, the name of the variable
  that fills it in the source.

  The source reads the key \<open>number\<close> in two ways: \<open>d.get('number')\<close>, which is
  \<open>None\<close> for a null and for a missing key alike, and \<open>d.get('number', '0')\<close> in the
  sort key, which tells them apart. So this one field keeps the three cases.
\<close>

datatype json_string = Missing | Null | Str string

fun dict_get :: "json_string \<Rightarrow> string option" where
  "dict_get Missing = None"
| "dict_get Null = None"
| "dict_get (Str s) = Some s"

fun dict_get_default :: "json_string \<Rightarrow> string \<Rightarrow> string option" where
  "dict_get_default Missing d = Some d"
| "dict_get_default Null d = None"
| "dict_get_default (Str s) d = Some s"

fun json_of :: "string option \<Rightarrow> json_string" where
  "json_of None = Null"
| "json_of (Some s) = Str s"

record chapter_record =
  chapter_id :: "string option"
  number_field :: json_string
  title :: "string option"
  url :: "string option"
  original_time :: "string option"
  novel_slug :: string
  content :: "string option"
  scraped_at :: "string option"
  content_scraped_at :: "string option"
  error :: "string option"

text \<open>\<open>chapter.get('number')\<close>.\<close>

definition number :: "chapter_record \<Rightarrow> string option" where
  "number chapter = dict_get (number_field chapter)"

text \<open>
  The stub that \<open>extract_chapter_info\<close> returns for a chapter card; it always has
  the key \<open>number\<close>, null when the card has no number element.
\<close>

definition chapter_info ::
  "string option \<Rightarrow> string option \<Rightarrow> string option \<Rightarrow> string option \<Rightarrow> string option
     \<Rightarrow> string \<Rightarrow> chapter_record" where
  "chapter_info cid chapter_number chapter_title chapter_url otime slug =
     \<lparr>chapter_id = cid, number_field = json_of chapter_number, title = chapter_title, url = chapter_url,
      original_time = otime, novel_slug = slug, content = None, scraped_at = None,
      content_scraped_at = None, error = None\<rparr>"

text \<open>Python truthiness of a string-or-None value: \<open>None\<close> and \<open>''\<close> are falsy.\<close>

definition truthy :: "string option \<Rightarrow> bool" where
  "truthy v = (case v of None \<Rightarrow> False | Some s \<Rightarrow> s \<noteq> [])"

section \<open>Merge Engine: \<open>merge_chapters\<close> (lines 522-535)\<close>

text \<open>
  The two set comprehensions keep the truthy ids and numbers of the existing chapters.
  The sets are built once, before the loop, and the loop never adds to them.
\<close>

definition existing_ids :: "chapter_record list \<Rightarrow> string option set" where
  "existing_ids existing_chapters =
     set [chapter_id chap. chap \<leftarrow> existing_chapters, truthy (chapter_id chap)]"

definition existing_numbers :: "chapter_record list \<Rightarrow> string option set" where
  "existing_numbers existing_chapters =
     set [number chap. chap \<leftarrow> existing_chapters, truthy (number chap)]"

fun merge_loop ::
  "string option set \<Rightarrow> string option set \<Rightarrow> chapter_record list \<Rightarrow> chapter_record list \<Rightarrow> chapter_record list" where
  "merge_loop ids nums merged_chapters [] = merged_chapters"
| "merge_loop ids nums merged_chapters (new_chapter # rest) =
     (if chapter_id new_chapter \<in> ids \<or> number new_chapter \<in> nums
      then merge_loop ids nums merged_chapters rest
      else merge_loop ids nums (merged_chapters @ [new_chapter]) rest)"

definition merge_chapters :: "chapter_record list \<Rightarrow> chapter_record list \<Rightarrow> chapter_record list" where
  "merge_chapters existing_chapters new_chapters =
     merge_loop (existing_ids existing_chapters) (existing_numbers existing_chapters)
       existing_chapters new_chapters"

text \<open>The loop's test, negated: the incoming record is appended.\<close>

definition appended :: "chapter_record list \<Rightarrow> chapter_record \<Rightarrow> bool" where
  "appended existing_chapters new_chapter \<longleftrightarrow>
     chapter_id new_chapter \<notin> existing_ids existing_chapters \<and>
     number new_chapter \<notin> existing_numbers existing_chapters"

section \<open>Chapter Collector: \<open>is_chapter_exists\<close> (lines 513-520)\<close>

fun is_chapter_exists :: "chapter_record list \<Rightarrow> chapter_record \<Rightarrow> bool" where
  "is_chapter_exists [] new_chapter = False"
| "is_chapter_exists (existing_chapter # rest) new_chapter =
     (if chapter_id existing_chapter = chapter_id new_chapter \<or>
         (number existing_chapter = number new_chapter \<and>
          title existing_chapter = title new_chapter)
      then True
      else is_chapter_exists rest new_chapter)"

text \<open>
  The loop over one listing page in \<open>get_all_chapters_for_novel\<close> (lines 292-294):
  a stub is appended to \<open>all_chapter_urls\<close> when \<open>is_chapter_exists\<close> is false.
\<close>

fun queue_page :: "chapter_record list \<Rightarrow> chapter_record list \<Rightarrow> chapter_record list \<Rightarrow> chapter_record list" where
  "queue_page existing_chapters all_chapter_urls [] = all_chapter_urls"
| "queue_page existing_chapters all_chapter_urls (chapter # page_chapters) =
     (if \<not> is_chapter_exists existing_chapters chapter
      then queue_page existing_chapters (all_chapter_urls @ [chapter]) page_chapters
      else queue_page existing_chapters all_chapter_urls page_chapters)"

text \<open>
  The identity key of the data model (spec, section 3): the id when there is one, the
  pair of number and title otherwise. A chapter list keeps the invariant when no two
  positions hold the same key.
\<close>

definition identity_key :: "chapter_record \<Rightarrow> string + string option \<times> string option" where
  "identity_key c = (case chapter_id c of Some i \<Rightarrow> Inl i | None \<Rightarrow> Inr (number c, title c))"

definition identity_unique :: "chapter_record list \<Rightarrow> bool" where
  "identity_unique cs = distinct (map identity_key cs)"

text \<open>
  The membership rule in the spec's words, for comparison with \<open>is_chapter_exists\<close>:
  the same non-null id, or, for a stub without id, the same number and title.
\<close>

definition known_by_identity_rule :: "chapter_record list \<Rightarrow> chapter_record \<Rightarrow> bool" where
  "known_by_identity_rule existing stub \<longleftrightarrow>
     (\<exists>e\<in>set existing. chapter_id e \<noteq> None \<and> chapter_id e = chapter_id stub) \<or>
     (chapter_id stub = None \<and>
      (\<exists>e\<in>set existing. number e = number stub \<and> title e = title stub))"

text \<open>
  The merge in the spec's words, for comparison with \<open>merge_chapters\<close>: the existing
  list, then the incoming records whose id is not among the non-null ids and whose
  number is not among the non-null numbers of the existing list.
\<close>

definition merge_first_write_wins ::
  "chapter_record list \<Rightarrow> chapter_record list \<Rightarrow> chapter_record list" where
  "merge_first_write_wins E N =
     E @ filter (\<lambda>n. chapter_id n \<notin> set (filter (\<lambda>v. v \<noteq> None) (map chapter_id E)) \<and>
                      number n \<notin> set (filter (\<lambda>v. v \<noteq> None) (map number E))) N"

section \<open>Content Fetcher: \<open>get_chapter_content_with_retry\<close> (lines 465-497)\<close>

text \<open>
  What one pass through the \<open>try\<close> body gives: an exception (transport error, HTTP
  error status, anything \<open>except Exception\<close> catches), a page without the
  \<open>.chapter-text\<close> element, or the text that \<open>get_text\<close> extracts from it.
  The server is a parameter: its answer to the k-th request of the run, for a URL.
  What the program does to the outside is recorded in a trace of events.
\<close>

datatype fetch_result = Raises | NoContentElem | ContentText string

record novel_dataset =
  total_chapters :: nat
  is_partial_save :: bool
  chapters :: "chapter_record list"

datatype event = Get string | Sleep nat | WriteFile string novel_dataset

fun is_get :: "event \<Rightarrow> bool" where
  "is_get (Get u) = True"
| "is_get e = False"

definition requests_made :: "event list \<Rightarrow> nat" where
  "requests_made tr = length (filter is_get tr)"

text \<open>
  \<open>str.strip()\<close>: the characters are code points below 256, and the white space among
  them is what \<open>str.isspace\<close> accepts there.
\<close>

definition is_space :: "char \<Rightarrow> bool" where
  "is_space c = ((of_char c :: nat) \<in> set [9, 10, 11, 12, 13, 28, 29, 30, 31, 32, 133, 160])"

definition strip :: "string \<Rightarrow> string" where
  "strip s = rev (dropWhile is_space (rev (dropWhile is_space s)))"

text \<open>
  The \<open>for attempt in range(max_retries)\<close> loop. Only the \<open>except\<close> branch sleeps;
  the two warning branches fall through to the next attempt.
\<close>

fun retry_loop ::
  "(nat \<Rightarrow> string \<Rightarrow> fetch_result) \<Rightarrow> string \<Rightarrow> nat \<Rightarrow> nat \<Rightarrow> nat list \<Rightarrow> event list
     \<Rightarrow> string option \<times> event list" where
  "retry_loop server chapter_url max_retries delay [] tr = (None, tr)"
| "retry_loop server chapter_url max_retries delay (attempt # rest) tr =
     (case server (requests_made tr) chapter_url of
        Raises \<Rightarrow>
          if attempt < max_retries - 1
          then retry_loop server chapter_url max_retries delay rest
                 (tr @ [Get chapter_url, Sleep (delay * (attempt + 1))])
          else retry_loop server chapter_url max_retries delay rest (tr @ [Get chapter_url])
      | NoContentElem \<Rightarrow>
          retry_loop server chapter_url max_retries delay rest (tr @ [Get chapter_url])
      | ContentText body \<Rightarrow>
          if body \<noteq> [] \<and> length (strip body) > 10
          then (Some body, tr @ [Get chapter_url])
          else retry_loop server chapter_url max_retries delay rest (tr @ [Get chapter_url]))"

definition get_chapter_content_with_retry ::
  "(nat \<Rightarrow> string \<Rightarrow> fetch_result) \<Rightarrow> string \<Rightarrow> nat \<Rightarrow> nat \<Rightarrow> event list
     \<Rightarrow> string option \<times> event list" where
  "get_chapter_content_with_retry server chapter_url max_retries delay tr =
     retry_loop server chapter_url max_retries delay [0..<max_retries] tr"

text \<open>An attempt fails when it raises, finds no content element, or the text is too short.\<close>

definition attempt_fails :: "fetch_result \<Rightarrow> bool" where
  "attempt_fails r =
     (case r of Raises \<Rightarrow> True | NoContentElem \<Rightarrow> True
      | ContentText body \<Rightarrow> \<not> (body \<noteq> [] \<and> length (strip body) > 10))"

section \<open>Sort pass: \<open>sort_chapters\<close> (lines 499-511)\<close>

text \<open>
  The sort key is a Python float: NaN, or a value that takes part in the order, with
  the finite values kept as rationals. The ordered values are linearly ordered.
\<close>

datatype ordered_float = NegInf | Finite rat | PosInf

instantiation ordered_float :: linorder
begin

fun less_eq_ordered_float :: "ordered_float \<Rightarrow> ordered_float \<Rightarrow> bool" where
  "less_eq_ordered_float NegInf y = True"
| "less_eq_ordered_float (Finite a) NegInf = False"
| "less_eq_ordered_float (Finite a) (Finite b) = (a \<le> b)"
| "less_eq_ordered_float (Finite a) PosInf = True"
| "less_eq_ordered_float PosInf NegInf = False"
| "less_eq_ordered_float PosInf (Finite b) = False"
| "less_eq_ordered_float PosInf PosInf = True"

definition less_ordered_float :: "ordered_float \<Rightarrow> ordered_float \<Rightarrow> bool" where
  "less_ordered_float x y \<longleftrightarrow> x \<le> y \<and> \<not> y \<le> x"

instance
proof
  fix x y z :: ordered_float
  show "(x < y) = (x \<le> y \<and> \<not> y \<le> x)" by (simp add: less_ordered_float_def)
  show "x \<le> x" by (cases x) auto
  show "x \<le> y \<Longrightarrow> y \<le> z \<Longrightarrow> x \<le> z" by (cases x; cases y; cases z) auto
  show "x \<le> y \<Longrightarrow> y \<le> x \<Longrightarrow> x = y" by (cases x; cases y) auto
  show "x \<le> y \<or> y \<le> x" by (cases x; cases y) auto
qed

end

text \<open>
  Python's \<open><=\<close> on floats: the order of the ordered values, and false as soon as
  one side is NaN.
\<close>

datatype pyfloat = NaN | Num ordered_float

fun py_le :: "pyfloat \<Rightarrow> pyfloat \<Rightarrow> bool" where
  "py_le (Num a) (Num b) = (a \<le> b)"
| "py_le NaN y = False"
| "py_le (Num a) NaN = False"

text \<open>The keys as ordered values, when none of them is NaN.\<close>

fun ordered_keys :: "pyfloat list \<Rightarrow> ordered_float list option" where
  "ordered_keys [] = Some []"
| "ordered_keys (NaN # ks) = None"
| "ordered_keys (Num a # ks) =
     (case ordered_keys ks of None \<Rightarrow> None | Some os \<Rightarrow> Some (a # os))"

datatype py_error = TypeError | ValueError

definition is_digit :: "char \<Rightarrow> bool" where
  "is_digit c = (c \<in> set ''0123456789'')"

lemma length_dropWhile_bound: "length (dropWhile P xs) \<le> length xs"
  by (induction xs) auto

lemma drop_dropWhile_bound: "length (dropWhile P (drop n (dropWhile Q r))) \<le> length r"
proof -
  have "length (dropWhile P (drop n (dropWhile Q r))) \<le> length (drop n (dropWhile Q r))"
    by (rule length_dropWhile_bound)
  also have "\<dots> \<le> length (dropWhile Q r)" by simp
  also have "\<dots> \<le> length r" by (rule length_dropWhile_bound)
  finally show ?thesis .
qed

text \<open>
  \<open>re.findall(r'\d+\.?\d*', s)\<close>: from the first digit, the run of digits, a dot if
  one follows, the digits after it; then the search goes on behind the match.
\<close>

function findall_numbers :: "string \<Rightarrow> string list" where
  "findall_numbers s =
     (case dropWhile (\<lambda>c. \<not> is_digit c) s of
        [] \<Rightarrow> []
      | c # r \<Rightarrow>
          (let int_part = c # takeWhile is_digit r;
               r1 = dropWhile is_digit r;
               dot = (case r1 of [] \<Rightarrow> [] | d # _ \<Rightarrow> if d = CHR ''.'' then [d] else []);
               r2 = drop (length dot) r1;
               frac_part = takeWhile is_digit r2;
               r3 = dropWhile is_digit r2
           in (int_part @ dot @ frac_part) # findall_numbers r3))"
  by pat_completeness auto
termination
proof (relation "measure length", goal_cases)
  case 1
  then show ?case by simp
next
  case (2 s c r int_part r1 dot r2 frac_part r3)
  have "length r3 \<le> length r"
    unfolding 2(7) 2(5) 2(3) by (rule drop_dropWhile_bound)
  also have "\<dots> < length (c # r)" by simp
  also have "\<dots> \<le> length s"
    unfolding 2(1)[symmetric] by (rule length_dropWhile_bound)
  finally show ?case by simp
qed

declare findall_numbers.simps [simp del]

text \<open>
  \<open>chapter_key\<close>. Python's \<open>float\<close> is the parameter \<open>pyfloat_of\<close>, \<open>None\<close> where it
  raises ValueError on a string; it may return NaN (\<open>float('nan')\<close> does). A record
  without the key \<open>number\<close> gets the default \<open>'0'\<close>. On a null number \<open>float\<close> raises
  TypeError, which the handler catches; \<open>re.findall\<close> then raises TypeError on \<open>None\<close>
  again, inside the handler, and that one is not caught.
\<close>

definition chapter_key :: "(string \<Rightarrow> pyfloat option) \<Rightarrow> chapter_record \<Rightarrow> py_error + pyfloat" where
  "chapter_key pyfloat_of chapter =
     (case dict_get_default (number_field chapter) ''0'' of
        None \<Rightarrow> Inl TypeError
      | Some num \<Rightarrow>
          (case pyfloat_of num of
             Some v \<Rightarrow> Inr v
           | None \<Rightarrow>
               (case findall_numbers num of
                  [] \<Rightarrow> Inr (Num PosInf)
                | tok # _ \<Rightarrow>
                    (case pyfloat_of tok of Some v \<Rightarrow> Inr v | None \<Rightarrow> Inl ValueError))))"

text \<open>\<open>sorted\<close> calls the key function on every element first; an exception there ends it.\<close>

fun chapter_keys ::
  "(string \<Rightarrow> pyfloat option) \<Rightarrow> chapter_record list \<Rightarrow> py_error + pyfloat list" where
  "chapter_keys pyfloat_of [] = Inr []"
| "chapter_keys pyfloat_of (c # cs) =
     (case chapter_key pyfloat_of c of
        Inl e \<Rightarrow> Inl e
      | Inr k \<Rightarrow>
          (case chapter_keys pyfloat_of cs of Inl e \<Rightarrow> Inl e | Inr ks \<Rightarrow> Inr (k # ks)))"

text \<open>
  \<open>sorted(chapters, key=chapter_key)\<close>. When no key is NaN the comparisons are a
  linear order and the builtin returns the stable sort of the records by their keys.
  When a key is NaN they are not, and what the builtin returns depends on its
  algorithm: that result is the parameter \<open>sorted_nan\<close>, a function of the keys and
  the records.
\<close>

definition sort_chapters ::
  "(string \<Rightarrow> pyfloat option) \<Rightarrow> (pyfloat list \<Rightarrow> chapter_record list \<Rightarrow> chapter_record list)
     \<Rightarrow> chapter_record list \<Rightarrow> py_error + chapter_record list" where
  "sort_chapters pyfloat_of sorted_nan cs =
     (case chapter_keys pyfloat_of cs of
        Inl e \<Rightarrow> Inl e
      | Inr ks \<Rightarrow>
          (case ordered_keys ks of
             None \<Rightarrow> Inr (sorted_nan ks cs)
           | Some os \<Rightarrow> Inr (map snd (sort_key fst (zip os cs)))))"

text \<open>
  A chapter list is sorted at rest when every key can be computed and the keys ascend
  in Python's order; a list of two or more records with a NaN key is not.
\<close>

definition sorted_by_number :: "(string \<Rightarrow> pyfloat option) \<Rightarrow> chapter_record list \<Rightarrow> bool" where
  "sorted_by_number pyfloat_of cs =
     (case chapter_keys pyfloat_of cs of Inl e \<Rightarrow> False | Inr ks \<Rightarrow> sorted_wrt py_le ks)"

text \<open>
  A stand-in for \<open>float\<close> in the concrete examples, and only there: it reads plain
  decimal literals (digits, then optionally a dot and digits) and answers \<open>None\<close> on
  every other string. It is not Python's \<open>float\<close>, which also reads signs, exponents,
  underscores, surrounding white space, \<open>inf\<close> and \<open>nan\<close>, and rounds to a double. The
  two agree on the strings of the examples: short plain literals, and strings on which
  \<open>float\<close> raises ValueError. The general statements take \<open>float\<close> as a parameter.
\<close>

definition digit_val :: "char \<Rightarrow> nat" where
  "digit_val c = length (takeWhile (\<lambda>d. d \<noteq> c) ''0123456789'')"

definition nat_of_digits :: "string \<Rightarrow> nat" where
  "nat_of_digits ds = foldl (\<lambda>a c. 10 * a + digit_val c) 0 ds"

definition float_decimal :: "string \<Rightarrow> pyfloat option" where
  "float_decimal s =
     (let int_part = takeWhile is_digit s; r = dropWhile is_digit s in
      if int_part = [] then None
      else (case r of
              [] \<Rightarrow> Some (Num (Finite (of_nat (nat_of_digits int_part))))
            | d # frac_part \<Rightarrow>
                if d = CHR ''.'' \<and> list_all is_digit frac_part
                then Some (Num (Finite (of_nat (nat_of_digits int_part) +
                                        of_nat (nat_of_digits frac_part) / 10 ^ length frac_part)))
                else None))"

section \<open>Processing the new chapters: \<open>get_all_chapters_for_novel\<close> (lines 312-363)\<close>

text \<open>
  The state of a run: the trace of events, and how often the clock has been read.
  \<open>now\<close> gives the timestamp of the k-th reading.
\<close>

record world =
  trace :: "event list"
  clock_reads :: nat

definition get_current_timestamp :: "(nat \<Rightarrow> string) \<Rightarrow> world \<Rightarrow> string \<times> world" where
  "get_current_timestamp now w = (now (clock_reads w), w\<lparr>clock_reads := clock_reads w + 1\<rparr>)"

text \<open>
  The body of the loop over \<open>all_chapter_urls\<close> up to the append (lines 322-340).
  Nothing in it raises in this model, so the \<open>except\<close> branch (lines 347-353) is
  never entered.
\<close>

definition process_chapter ::
  "(nat \<Rightarrow> string \<Rightarrow> fetch_result) \<Rightarrow> (nat \<Rightarrow> string) \<Rightarrow> chapter_record \<Rightarrow> world
     \<Rightarrow> chapter_record \<times> world" where
  "process_chapter server now chapter w =
     (let (t1, w1) = get_current_timestamp now w;
          chapter1 = chapter\<lparr>scraped_at := Some t1\<rparr>
      in if truthy (url chapter1)
         then (case url chapter1 of
                 None \<Rightarrow> (chapter1\<lparr>content := None, error := Some ''No chapter URL available''\<rparr>, w1)
               | Some u \<Rightarrow>
                   (let (body, tr2) = get_chapter_content_with_retry server u 3 2 (trace w1);
                        (t2, w2) = get_current_timestamp now (w1\<lparr>trace := tr2\<rparr>);
                        chapter2 = chapter1\<lparr>content := body, content_scraped_at := Some t2\<rparr>
                    in if truthy body then (chapter2, w2)
                       else (chapter2\<lparr>content := None, error := Some ''Failed to fetch content''\<rparr>, w2)))
         else (chapter1\<lparr>content := None, error := Some ''No chapter URL available''\<rparr>, w1))"

text \<open>
  \<open>save_partial_novel_data\<close> (lines 365-395): the merge of the existing chapters with
  the new ones goes to the file as it is. Of the metadata, the chapter count and the
  partial-save mark are kept; the write is taken to succeed. The two counters the
  source passes in are used for the progress text and the log line only.
\<close>

definition save_partial_novel_data ::
  "(nat \<Rightarrow> string) \<Rightarrow> string \<Rightarrow> chapter_record list \<Rightarrow> chapter_record list \<Rightarrow> world \<Rightarrow> world" where
  "save_partial_novel_data now slug existing_chapters new_chapters w =
     (let current_merged = merge_chapters existing_chapters new_chapters;
          (t, w1) = get_current_timestamp now w;
          partial_data = \<lparr>total_chapters = length current_merged, is_partial_save = True,
                          chapters = current_merged\<rparr>
      in w1\<lparr>trace := trace w1 @ [WriteFile (''data/novels/'' @ slug @ ''.json'') partial_data]\<rparr>)"

fun chapter_loop ::
  "(nat \<Rightarrow> string \<Rightarrow> fetch_result) \<Rightarrow> (nat \<Rightarrow> string) \<Rightarrow> string \<Rightarrow> chapter_record list \<Rightarrow> nat
     \<Rightarrow> nat \<Rightarrow> chapter_record list \<Rightarrow> chapter_record list \<Rightarrow> nat \<Rightarrow> world
     \<Rightarrow> chapter_record list \<times> world" where
  "chapter_loop server now slug existing_chapters n_urls i [] all_new_chapters processed_count w =
     (all_new_chapters, w)"
| "chapter_loop server now slug existing_chapters n_urls i (chapter # rest) all_new_chapters
       processed_count w =
     (let (done, w1) = process_chapter server now chapter w;
          all_new = all_new_chapters @ [done];
          processed = processed_count + 1;
          w2 = (if processed mod 10 = 0 \<or> processed = n_urls
                then save_partial_novel_data now slug existing_chapters all_new w1
                else w1);
          w3 = (if i < n_urls then w2\<lparr>trace := trace w2 @ [Sleep 1]\<rparr> else w2)
      in chapter_loop server now slug existing_chapters n_urls (i + 1) rest all_new processed w3)"

text \<open>
  The state after the checkpoint and the pause of one pass through the loop body
  (lines 343-356), from the state after the chapter was processed.
\<close>

definition after_chapter ::
  "(nat \<Rightarrow> string) \<Rightarrow> string \<Rightarrow> chapter_record list \<Rightarrow> nat \<Rightarrow> nat \<Rightarrow> chapter_record list \<Rightarrow> nat
     \<Rightarrow> world \<Rightarrow> world" where
  "after_chapter now slug E n i all_new processed w1 =
     (let w2 = (if processed mod 10 = 0 \<or> processed = n
                then save_partial_novel_data now slug E all_new w1 else w1)
      in if i < n then w2\<lparr>trace := trace w2 @ [Sleep 1]\<rparr> else w2)"

text \<open>
  From the collected stubs to the returned list: the loop, then the final merge and
  sort (lines 358-363). An exception of the sort leaves the function.
\<close>

definition process_new_chapters ::
  "(nat \<Rightarrow> string \<Rightarrow> fetch_result) \<Rightarrow> (nat \<Rightarrow> string) \<Rightarrow> (string \<Rightarrow> pyfloat option)
     \<Rightarrow> (pyfloat list \<Rightarrow> chapter_record list \<Rightarrow> chapter_record list) \<Rightarrow> string
     \<Rightarrow> chapter_record list \<Rightarrow> chapter_record list \<Rightarrow> world
     \<Rightarrow> (py_error + chapter_record list) \<times> world" where
  "process_new_chapters server now pyfloat_of sorted_nan slug existing_chapters all_chapter_urls w =
     (let (all_new_chapters, w1) =
            chapter_loop server now slug existing_chapters (length all_chapter_urls) 1
              all_chapter_urls [] 0 w
      in (sort_chapters pyfloat_of sorted_nan
            (merge_chapters existing_chapters all_new_chapters), w1))"

text \<open>
  \<open>save_complete_novel_to_json\<close> (lines 582-607) reads the clock three times and
  writes the chapters it is given, marked complete.
\<close>

definition save_complete_novel_to_json ::
  "string \<Rightarrow> chapter_record list \<Rightarrow> world \<Rightarrow> world" where
  "save_complete_novel_to_json slug chapters_with_content w =
     w\<lparr>trace := trace w @ [WriteFile (''data/novels/'' @ slug @ ''.json'')
          \<lparr>total_chapters = length chapters_with_content, is_partial_save = False,
           chapters = chapters_with_content\<rparr>],
       clock_reads := clock_reads w + 3\<rparr>"

text \<open>
  The second pass for one novel (lines 682-688 of \<open>scrape_all_novels_complete\<close>),
  from the stubs the collector queued: process them, then the final save. When the
  sort raises, the exception leaves the pass and the final save does not happen.
\<close>

definition second_pass_novel ::
  "(nat \<Rightarrow> string \<Rightarrow> fetch_result) \<Rightarrow> (nat \<Rightarrow> string) \<Rightarrow> (string \<Rightarrow> pyfloat option)
     \<Rightarrow> (pyfloat list \<Rightarrow> chapter_record list \<Rightarrow> chapter_record list) \<Rightarrow> string
     \<Rightarrow> chapter_record list \<Rightarrow> chapter_record list \<Rightarrow> world
     \<Rightarrow> (py_error + chapter_record list) \<times> world" where
  "second_pass_novel server now pyfloat_of sorted_nan slug existing_chapters all_chapter_urls w =
     (case process_new_chapters server now pyfloat_of sorted_nan slug existing_chapters
             all_chapter_urls w of
        (Inl e, w1) \<Rightarrow> (Inl e, w1)
      | (Inr all_chapters, w1) \<Rightarrow>
          (Inr all_chapters, save_complete_novel_to_json slug all_chapters w1))"

text \<open>
  The dataset of a checkpoint (\<open>is_partial_save\<close> set) and of the final save
  (\<open>is_complete\<close> set), for a list of chapters.
\<close>

definition partial_dataset :: "chapter_record list \<Rightarrow> novel_dataset" where
  "partial_dataset cs = \<lparr>total_chapters = length cs, is_partial_save = True, chapters = cs\<rparr>"

definition complete_dataset :: "chapter_record list \<Rightarrow> novel_dataset" where
  "complete_dataset cs = \<lparr>total_chapters = length cs, is_partial_save = False, chapters = cs\<rparr>"

text \<open>The datasets written during a run, in order.\<close>

fun written :: "event list \<Rightarrow> novel_dataset list" where
  "written [] = []"
| "written (WriteFile f d # es) = d # written es"
| "written (e # es) = written es"

section \<open>Properties of the merge\<close>

lemmas merge_eval =
  merge_chapters_def existing_ids_def existing_numbers_def chapter_info_def number_def truthy_def

lemma merge_loop_filter:
  "merge_loop ids nums acc ns =
     acc @ filter (\<lambda>n. chapter_id n \<notin> ids \<and> number n \<notin> nums) ns"
  by (induction ns arbitrary: acc) auto

lemma existing_ids_iff:
  "v \<in> existing_ids cs \<longleftrightarrow> (\<exists>e\<in>set cs. truthy (chapter_id e) \<and> chapter_id e = v)"
  by (auto simp: existing_ids_def)

lemma existing_numbers_iff:
  "v \<in> existing_numbers cs \<longleftrightarrow> (\<exists>e\<in>set cs. truthy (number e) \<and> number e = v)"
  by (auto simp: existing_numbers_def)

lemma existing_ids_append: "existing_ids (xs @ ys) = existing_ids xs \<union> existing_ids ys"
  by (auto simp: existing_ids_def)

lemma existing_numbers_append:
  "existing_numbers (xs @ ys) = existing_numbers xs \<union> existing_numbers ys"
  by (auto simp: existing_numbers_def)

lemma merge_chapters_appended: "merge_chapters E N = E @ filter (appended E) N"
  by (simp add: merge_chapters_def merge_loop_filter appended_def[abs_def])

text \<open>
  Merging the same batch again appends exactly the records that were appended the
  first time and have neither a truthy id nor a truthy number.
\<close>

lemma remerge_filter:
  "filter (appended (E @ filter (appended E) N)) N =
   filter (\<lambda>n. appended E n \<and> \<not> truthy (chapter_id n) \<and> \<not> truthy (number n)) N"
proof (rule filter_cong[OF refl])
  fix n assume n: "n \<in> set N"
  let ?A = "filter (appended E) N"
  show "appended (E @ ?A) n = (appended E n \<and> \<not> truthy (chapter_id n) \<and> \<not> truthy (number n))"
  proof (cases "appended E n")
    case False
    then show ?thesis
      by (auto simp: appended_def existing_ids_append existing_numbers_append)
  next
    case True
    with n have nA: "n \<in> set ?A" by simp
    have i: "chapter_id n \<in> existing_ids ?A \<longleftrightarrow> truthy (chapter_id n)"
      using nA by (auto simp: existing_ids_iff)
    have k: "number n \<in> existing_numbers ?A \<longleftrightarrow> truthy (number n)"
      using nA by (auto simp: existing_numbers_iff)
    show ?thesis using True i k
      by (auto simp: appended_def existing_ids_append existing_numbers_append)
  qed
qed

text \<open>
  C1 (as amended). Merging the same incoming batch a second time changes nothing
  exactly when every incoming record that the first merge appends has a truthy
  (non-null, non-empty) id or a truthy number. A record with neither is in no index
  of known ids or numbers, so the second merge appends it again.
\<close>

theorem merge_idempotent_iff:
  "merge_chapters (merge_chapters E N) N = merge_chapters E N \<longleftrightarrow>
     (\<forall>n\<in>set N. chapter_id n \<notin> existing_ids E \<and> number n \<notin> existing_numbers E \<longrightarrow>
        truthy (chapter_id n) \<or> truthy (number n))"
proof -
  have "merge_chapters (merge_chapters E N) N = merge_chapters E N \<longleftrightarrow>
        filter (appended (E @ filter (appended E) N)) N = []"
    by (simp add: merge_chapters_appended)
  also have "\<dots> \<longleftrightarrow> (\<forall>n\<in>set N. appended E n \<longrightarrow> truthy (chapter_id n) \<or> truthy (number n))"
    by (auto simp: remerge_filter filter_empty_conv)
  finally show ?thesis by (simp add: appended_def)
qed

text \<open>
  Witness for C1: an existing chapter 1, an incoming batch that repeats chapter 1 and
  brings chapter 2; the second merge of the batch changes nothing.
\<close>

theorem merge_idempotent_witness:
  "merge_chapters
     (merge_chapters
        [chapter_info (Some ''c1'') (Some ''1'') (Some ''One'') None None ''novel'']
        [chapter_info (Some ''c1'') (Some ''1'') (Some ''One'') None None ''novel'',
         chapter_info (Some ''c2'') (Some ''2'') (Some ''Two'') None None ''novel''])
     [chapter_info (Some ''c1'') (Some ''1'') (Some ''One'') None None ''novel'',
      chapter_info (Some ''c2'') (Some ''2'') (Some ''Two'') None None ''novel'']
   = merge_chapters
        [chapter_info (Some ''c1'') (Some ''1'') (Some ''One'') None None ''novel'']
        [chapter_info (Some ''c1'') (Some ''1'') (Some ''One'') None None ''novel'',
         chapter_info (Some ''c2'') (Some ''2'') (Some ''Two'') None None ''novel'']"
  using merge_idempotent_iff
    [of "[chapter_info (Some ''c1'') (Some ''1'') (Some ''One'') None None ''novel'']"
        "[chapter_info (Some ''c1'') (Some ''1'') (Some ''One'') None None ''novel'',
          chapter_info (Some ''c2'') (Some ''2'') (Some ''Two'') None None ''novel'']"]
  by (simp add: existing_ids_def existing_numbers_def chapter_info_def number_def truthy_def)

text \<open>
  Counterexample to C1 as stated: a record whose id and number are both null is
  appended by the first merge and again by the second.
\<close>

theorem merge_not_idempotent_counterexample:
  "merge_chapters
     (merge_chapters [] [chapter_info None None (Some ''Prologue'') None None ''novel''])
     [chapter_info None None (Some ''Prologue'') None None ''novel'']
   \<noteq> merge_chapters [] [chapter_info None None (Some ''Prologue'') None None ''novel'']"
  by (simp add: merge_eval)

text \<open>
  C9 (as amended). The merge is the existing list, unchanged and in order, followed by
  exactly those incoming records whose id is not the truthy (non-null and non-empty)
  id of an existing record and whose number is not the truthy number of an existing
  record. A dropped record contributes nothing, whatever content it carries.
\<close>

theorem merge_chapters_prefix_filter:
  "merge_chapters E N =
     E @ filter (\<lambda>n. \<not> (\<exists>e\<in>set E. truthy (chapter_id e) \<and> chapter_id e = chapter_id n) \<and>
                      \<not> (\<exists>e\<in>set E. truthy (number e) \<and> number e = number n)) N"
  by (simp add: merge_chapters_def merge_loop_filter existing_ids_iff existing_numbers_iff)

text \<open>
  Counterexample to C9 as stated: an existing record with the empty string as number
  (a chapter card whose number element is empty) does not put that number into the
  known numbers, so an incoming record with the same empty number is appended,
  although the number is non-null and equal.
\<close>

theorem merge_empty_number_counterexample:
  "merge_chapters [chapter_info (Some ''a'') (Some '''') (Some ''Foo'') None None ''novel'']
                  [chapter_info (Some ''b'') (Some '''') (Some ''Bar'') None None ''novel'']
   \<noteq> merge_first_write_wins
        [chapter_info (Some ''a'') (Some '''') (Some ''Foo'') None None ''novel'']
        [chapter_info (Some ''b'') (Some '''') (Some ''Bar'') None None ''novel'']"
  by (simp add: merge_eval merge_first_write_wins_def)

text \<open>
  The two merge examples of the spec (section 8): an incoming record with a known id
  is dropped although it carries content, and one with a known number is dropped
  although its title differs.
\<close>

lemma dedup_by_id_example:
  "merge_chapters [chapter_info (Some ''c1'') (Some ''1'') None None None ''novel'']
     [(chapter_info (Some ''c1'') (Some ''1'') None None None ''novel'')\<lparr>content := Some ''X''\<rparr>]
   = [chapter_info (Some ''c1'') (Some ''1'') None None None ''novel'']"
  by (simp add: merge_eval)

lemma dedup_by_number_example:
  "merge_chapters [chapter_info None (Some ''5'') (Some ''Foo'') None None ''novel'']
     [chapter_info None (Some ''5'') (Some ''Bar'') None None ''novel'']
   = [chapter_info None (Some ''5'') (Some ''Foo'') None None ''novel'']"
  by (simp add: merge_eval)

text \<open>
  C6. The existing list holds one chapter and keeps the invariant; the incoming batch
  holds chapter 2 twice (the listing showed it on two pages). The known ids and
  numbers are those of the existing list only, so both copies are appended and the
  merged list has two records with the id c2.
\<close>

theorem merge_duplicates_within_batch:
  "identity_unique [chapter_info (Some ''c1'') (Some ''1'') (Some ''One'') None None ''novel''] \<and>
   merge_chapters [chapter_info (Some ''c1'') (Some ''1'') (Some ''One'') None None ''novel'']
     [chapter_info (Some ''c2'') (Some ''2'') (Some ''Two'') None None ''novel'',
      chapter_info (Some ''c2'') (Some ''2'') (Some ''Two'') None None ''novel'']
   = [chapter_info (Some ''c1'') (Some ''1'') (Some ''One'') None None ''novel'',
      chapter_info (Some ''c2'') (Some ''2'') (Some ''Two'') None None ''novel'',
      chapter_info (Some ''c2'') (Some ''2'') (Some ''Two'') None None ''novel''] \<and>
   \<not> identity_unique
       (merge_chapters [chapter_info (Some ''c1'') (Some ''1'') (Some ''One'') None None ''novel'']
          [chapter_info (Some ''c2'') (Some ''2'') (Some ''Two'') None None ''novel'',
           chapter_info (Some ''c2'') (Some ''2'') (Some ''Two'') None None ''novel''])"
  by (simp add: merge_eval identity_unique_def identity_key_def)

section \<open>Properties of the membership test\<close>

lemma is_chapter_exists_iff:
  "is_chapter_exists E n \<longleftrightarrow>
     (\<exists>e\<in>set E. chapter_id e = chapter_id n \<or> (number e = number n \<and> title e = title n))"
  by (induction E) auto

lemma queue_page_filter:
  "queue_page E acc page = acc @ filter (\<lambda>c. \<not> is_chapter_exists E c) page"
  by (induction page arbitrary: acc) auto

text \<open>
  C2 (as amended). For a stub that has an id, and for a stub without id when every
  existing record has an id, \<open>is_chapter_exists\<close> answers true exactly when some
  existing record has the same non-null id or has the same number and the same title:
  the pair of number and title is compared whether or not the stub has an id. The one
  case left out is a stub without id against existing chapters of which one has no id.
\<close>

theorem is_chapter_exists_rule:
  assumes "chapter_id stub \<noteq> None \<or> (\<forall>e\<in>set E. chapter_id e \<noteq> None)"
  shows "is_chapter_exists E stub \<longleftrightarrow>
     (\<exists>e\<in>set E. (chapter_id e \<noteq> None \<and> chapter_id e = chapter_id stub) \<or>
                 (number e = number stub \<and> title e = title stub))"
  using assms unfolding is_chapter_exists_iff by metis

text \<open>
  Witness for C2: a stub with id c2 is unknown against chapter c1 and known against a
  list that holds c2; a stub without id is unknown against chapter c1 when its number
  and title are new, and known when they are those of c1.
\<close>

theorem is_chapter_exists_rule_witness:
  "\<not> is_chapter_exists [chapter_info (Some ''c1'') (Some ''1'') (Some ''One'') None None ''novel'']
       (chapter_info (Some ''c2'') (Some ''2'') (Some ''Two'') None None ''novel'') \<and>
   is_chapter_exists [chapter_info (Some ''c1'') (Some ''1'') (Some ''One'') None None ''novel'',
                      chapter_info (Some ''c2'') (Some ''2'') (Some ''Two'') None None ''novel'']
       (chapter_info (Some ''c2'') (Some ''2'') (Some ''Two'') None None ''novel'') \<and>
   \<not> is_chapter_exists [chapter_info (Some ''c1'') (Some ''1'') (Some ''One'') None None ''novel'']
       (chapter_info None (Some ''2'') (Some ''Two'') None None ''novel'') \<and>
   is_chapter_exists [chapter_info (Some ''c1'') (Some ''1'') (Some ''One'') None None ''novel'']
       (chapter_info None (Some ''1'') (Some ''One'') None None ''novel'')"
  using
    is_chapter_exists_rule
      [of "chapter_info (Some ''c2'') (Some ''2'') (Some ''Two'') None None ''novel''"
          "[chapter_info (Some ''c1'') (Some ''1'') (Some ''One'') None None ''novel'']"]
    is_chapter_exists_rule
      [of "chapter_info (Some ''c2'') (Some ''2'') (Some ''Two'') None None ''novel''"
          "[chapter_info (Some ''c1'') (Some ''1'') (Some ''One'') None None ''novel'',
            chapter_info (Some ''c2'') (Some ''2'') (Some ''Two'') None None ''novel'']"]
    is_chapter_exists_rule
      [of "chapter_info None (Some ''2'') (Some ''Two'') None None ''novel''"
          "[chapter_info (Some ''c1'') (Some ''1'') (Some ''One'') None None ''novel'']"]
    is_chapter_exists_rule
      [of "chapter_info None (Some ''1'') (Some ''One'') None None ''novel''"
          "[chapter_info (Some ''c1'') (Some ''1'') (Some ''One'') None None ''novel'']"]
  by (simp add: chapter_info_def number_def)

text \<open>
  The case left out of C2: as soon as one existing record has no id, every stub
  without id is judged known, whatever its number and title, because the test compares
  \<open>None == None\<close>. \<open>merge_chapters\<close> keeps null ids out of its known ids; this test
  does not, so such a stub is never queued and its chapter is never fetched.
\<close>

lemma id_less_stub_judged_known:
  assumes "e \<in> set E" and "chapter_id e = None" and "chapter_id stub = None"
  shows "is_chapter_exists E stub"
  using assms unfolding is_chapter_exists_iff by auto

text \<open>
  Counterexample to C2 as stated, at two inputs. A stub without id, of a new number
  and title, is judged known because an existing record has no id either (the case
  left out above). A stub with a new id is judged known because an existing record has
  its number and title.
\<close>

theorem is_chapter_exists_counterexample:
  "is_chapter_exists [chapter_info None (Some ''1'') (Some ''One'') None None ''novel'']
      (chapter_info None (Some ''2'') (Some ''Two'') None None ''novel'') \<and>
   \<not> known_by_identity_rule [chapter_info None (Some ''1'') (Some ''One'') None None ''novel'']
      (chapter_info None (Some ''2'') (Some ''Two'') None None ''novel'') \<and>
   is_chapter_exists [chapter_info (Some ''c1'') (Some ''1'') (Some ''One'') None None ''novel'']
      (chapter_info (Some ''c9'') (Some ''1'') (Some ''One'') None None ''novel'') \<and>
   \<not> known_by_identity_rule [chapter_info (Some ''c1'') (Some ''1'') (Some ''One'') None None ''novel'']
      (chapter_info (Some ''c9'') (Some ''1'') (Some ''One'') None None ''novel'')"
  by (simp add: chapter_info_def number_def known_by_identity_rule_def)

text \<open>
  C10. When the existing chapters hold a record with the id of a stub, whatever its
  content and error fields, \<open>is_chapter_exists\<close> is true for the stub and the page loop
  queues the same chapters as for the page without the stub: it is never queued, so
  never fetched again.
\<close>

theorem known_id_never_queued:
  assumes "e \<in> set E" and "chapter_id e = chapter_id stub"
  shows "is_chapter_exists E stub \<and>
         queue_page E acc (before @ stub # after) = queue_page E acc (before @ after)"
proof -
  have "is_chapter_exists E stub"
    using assms by (auto simp: is_chapter_exists_iff)
  then show ?thesis by (simp add: queue_page_filter)
qed

text \<open>
  Witness for C10: chapter c7 failed in an earlier run (no content, the error mark
  set); the listing shows it again, with a new title, between two new chapters. Only
  the two new chapters are queued.
\<close>

theorem known_id_never_queued_witness:
  "is_chapter_exists
     [(chapter_info (Some ''c7'') (Some ''7'') (Some ''Seven'') (Some ''http://x/c7'') None ''novel'')
        \<lparr>content := None, error := Some ''Failed to fetch content''\<rparr>]
     (chapter_info (Some ''c7'') (Some ''7'') (Some ''Seven, revised'') (Some ''http://x/c7'') None ''novel'') \<and>
   queue_page
     [(chapter_info (Some ''c7'') (Some ''7'') (Some ''Seven'') (Some ''http://x/c7'') None ''novel'')
        \<lparr>content := None, error := Some ''Failed to fetch content''\<rparr>]
     []
     ([chapter_info (Some ''c8'') (Some ''8'') (Some ''Eight'') None None ''novel''] @
      chapter_info (Some ''c7'') (Some ''7'') (Some ''Seven, revised'') (Some ''http://x/c7'') None ''novel'' #
      [chapter_info (Some ''c9'') (Some ''9'') (Some ''Nine'') None None ''novel''])
   = [chapter_info (Some ''c8'') (Some ''8'') (Some ''Eight'') None None ''novel'',
      chapter_info (Some ''c9'') (Some ''9'') (Some ''Nine'') None None ''novel'']"
proof -
  let ?old = "(chapter_info (Some ''c7'') (Some ''7'') (Some ''Seven'') (Some ''http://x/c7'') None ''novel'')
        \<lparr>content := None, error := Some ''Failed to fetch content''\<rparr>"
  let ?stub = "chapter_info (Some ''c7'') (Some ''7'') (Some ''Seven, revised'') (Some ''http://x/c7'') None ''novel''"
  have m: "?old \<in> set [?old]" by simp
  have i: "chapter_id ?old = chapter_id ?stub" by (simp add: chapter_info_def number_def)
  show ?thesis
    using known_id_never_queued [OF m i, of "[]"
        "[chapter_info (Some ''c8'') (Some ''8'') (Some ''Eight'') None None ''novel'']"
        "[chapter_info (Some ''c9'') (Some ''9'') (Some ''Nine'') None None ''novel'']"]
    by (simp add: chapter_info_def number_def)
qed

section \<open>Properties of the Content Fetcher\<close>

lemmas fetch_eval =
  get_chapter_content_with_retry_def upt_rec requests_made_def strip_def is_space_def

lemma requests_made_append: "requests_made (xs @ ys) = requests_made xs + requests_made ys"
  by (simp add: requests_made_def)

lemma requests_made_simps:
  "requests_made [] = 0"
  "requests_made (Get u # es) = Suc (requests_made es)"
  "requests_made (Sleep d # es) = requests_made es"
  "requests_made (WriteFile f ds # es) = requests_made es"
  by (simp_all add: requests_made_def)

text \<open>
  When every attempt of the loop fails, the loop returns no content and has sent one
  request per attempt.
\<close>

lemma retry_loop_all_fail:
  "(\<And>k. k < length attempts \<Longrightarrow> attempt_fails (server (requests_made tr + k) u)) \<Longrightarrow>
   \<exists>evs. retry_loop server u mr d attempts tr = (None, tr @ evs) \<and>
         filter is_get evs = replicate (length attempts) (Get u)"
proof (induction attempts arbitrary: tr)
  case Nil
  then show ?case by simp
next
  case (Cons a rest)
  have f0: "attempt_fails (server (requests_made tr) u)"
    using Cons.prems[of 0] by simp
  have step: "\<exists>evs. retry_loop server u mr d rest (tr @ pre) = (None, (tr @ pre) @ evs) \<and>
                filter is_get evs = replicate (length rest) (Get u)"
    if "requests_made pre = 1" for pre
  proof (rule Cons.IH)
    fix k assume "k < length rest"
    then have "attempt_fails (server (requests_made tr + Suc k) u)"
      using Cons.prems[of "Suc k"] by simp
    then show "attempt_fails (server (requests_made (tr @ pre) + k) u)"
      using that by (simp add: requests_made_append)
  qed
  from step[of "[Get u]"] obtain e1 where e1:
    "retry_loop server u mr d rest (tr @ [Get u]) = (None, (tr @ [Get u]) @ e1)"
    "filter is_get e1 = replicate (length rest) (Get u)"
    by (auto simp: requests_made_simps)
  from step[of "[Get u, Sleep (d * (a + 1))]"] obtain e2 where e2:
    "retry_loop server u mr d rest (tr @ [Get u, Sleep (d * (a + 1))]) =
       (None, (tr @ [Get u, Sleep (d * (a + 1))]) @ e2)"
    "filter is_get e2 = replicate (length rest) (Get u)"
    by (auto simp: requests_made_simps)
  show ?case
  proof (cases "server (requests_made tr) u")
    case Raises
    show ?thesis
    proof (cases "a < mr - 1")
      case True
      with Raises e2 show ?thesis
        by (intro exI[of _ "[Get u, Sleep (d * (a + 1))] @ e2"]) simp
    next
      case False
      with Raises e1 show ?thesis
        by (intro exI[of _ "[Get u] @ e1"]) simp
    qed
  next
    case NoContentElem
    with e1 show ?thesis
      by (intro exI[of _ "[Get u] @ e1"]) simp
  next
    case (ContentText body)
    with f0 have "\<not> (body \<noteq> [] \<and> 10 < length (strip body))"
      by (simp add: attempt_fails_def)
    with ContentText e1 show ?thesis
      by (intro exI[of _ "[Get u] @ e1"]) auto
  qed
qed

text \<open>The chapter loop appends one record per queued stub, whatever the server answers.\<close>

lemma chapter_loop_step:
  "process_chapter server now c w = (dn, w1) \<Longrightarrow>
   \<exists>w3. chapter_loop server now slug E n i (c # rest) acc pc w =
          chapter_loop server now slug E n (i + 1) rest (acc @ [dn]) (pc + 1) w3"
  by (auto simp: Let_def)

lemma chapter_loop_prefix:
  "\<exists>more w'. chapter_loop server now slug E n i stubs acc pc w = (acc @ more, w') \<and>
            length more = length stubs"
proof (induction stubs arbitrary: i acc pc w)
  case Nil
  then show ?case by simp
next
  case (Cons c rest)
  obtain dn w1 where p: "process_chapter server now c w = (dn, w1)"
    by (cases "process_chapter server now c w")
  from chapter_loop_step[OF p] obtain w3 where
    s: "chapter_loop server now slug E n i (c # rest) acc pc w =
        chapter_loop server now slug E n (i + 1) rest (acc @ [dn]) (pc + 1) w3" by blast
  from Cons.IH[of "i + 1" "acc @ [dn]" "pc + 1" w3] obtain more w' where
    m: "chapter_loop server now slug E n (i + 1) rest (acc @ [dn]) (pc + 1) w3 = ((acc @ [dn]) @ more, w')"
       "length more = length rest" by blast
  have "chapter_loop server now slug E n i (c # rest) acc pc w = (acc @ (dn # more), w')"
    unfolding s m(1) by simp
  then show ?case using m(2) by (intro exI[of _ "dn # more"] exI[of _ w']) simp
qed

text \<open>One pass through the loop body, then the loop on the remaining stubs.\<close>

lemma chapter_loop_unfold:
  assumes "process_chapter server now c w = (dn, w1)"
  shows "chapter_loop server now slug E n i (c # rest) acc pc w =
         chapter_loop server now slug E n (i + 1) rest (acc @ [dn]) (pc + 1)
           (after_chapter now slug E n i (acc @ [dn]) (pc + 1) w1)"
  using assms by (simp add: Let_def after_chapter_def)

lemma process_chapter_failed_exact:
  assumes u: "url chapter = Some u" "u \<noteq> []"
    and r: "get_chapter_content_with_retry server u 3 2 (trace w) = (None, tr')"
  shows "process_chapter server now chapter w =
     (chapter\<lparr>scraped_at := Some (now (clock_reads w)), content := None,
              content_scraped_at := Some (now (clock_reads w + 1)),
              error := Some ''Failed to fetch content''\<rparr>,
      w\<lparr>trace := tr', clock_reads := clock_reads w + 2\<rparr>)"
  using u r
  by (simp add: process_chapter_def get_current_timestamp_def truthy_def Let_def)

text \<open>
  C7. A chapter has a URL, and the next three answers of the server to it are all
  failures (an exception, no content element, or text that is too short). Then the
  fetcher returns no content after exactly three requests to the URL and the caller
  sends no further one; the caller's record is the stub with its two timestamps,
  \<open>content\<close> null and \<open>error\<close> "Failed to fetch content"; and the crawl goes on:
  the chapter loop appends that record, does its checkpoint and pause, and runs on
  every remaining stub, so that its result holds one record for each of them.
\<close>

theorem retry_exhaustion:
  assumes u: "url chapter = Some u" "u \<noteq> []"
    and f: "\<forall>k<3. attempt_fails (server (requests_made (trace w) + k) u)"
  shows "\<exists>evs failed w1 more w2.
           get_chapter_content_with_retry server u 3 2 (trace w) = (None, trace w @ evs) \<and>
           filter is_get evs = [Get u, Get u, Get u] \<and>
           failed = chapter\<lparr>scraped_at := Some (now (clock_reads w)), content := None,
                      content_scraped_at := Some (now (clock_reads w + 1)),
                      error := Some ''Failed to fetch content''\<rparr> \<and>
           w1 = w\<lparr>trace := trace w @ evs, clock_reads := clock_reads w + 2\<rparr> \<and>
           process_chapter server now chapter w = (failed, w1) \<and>
           content failed = None \<and> error failed = Some ''Failed to fetch content'' \<and>
           chapter_loop server now slug E n i (chapter # rest) acc pc w =
             chapter_loop server now slug E n (i + 1) rest (acc @ [failed]) (pc + 1)
               (after_chapter now slug E n i (acc @ [failed]) (pc + 1) w1) \<and>
           chapter_loop server now slug E n i (chapter # rest) acc pc w = (acc @ failed # more, w2) \<and>
           length more = length rest"
proof -
  have "\<exists>evs. retry_loop server u 3 2 [0..<3] (trace w) = (None, trace w @ evs) \<and>
          filter is_get evs = replicate (length [0..<3]) (Get u)"
    by (rule retry_loop_all_fail) (use f in simp)
  then obtain evs where e:
    "get_chapter_content_with_retry server u 3 2 (trace w) = (None, trace w @ evs)"
    "filter is_get evs = [Get u, Get u, Get u]"
    by (auto simp: get_chapter_content_with_retry_def numeral_3_eq_3)
  define failed where "failed = chapter\<lparr>scraped_at := Some (now (clock_reads w)), content := None,
                      content_scraped_at := Some (now (clock_reads w + 1)),
                      error := Some ''Failed to fetch content''\<rparr>"
  define w1 where "w1 = w\<lparr>trace := trace w @ evs, clock_reads := clock_reads w + 2\<rparr>"
  have p: "process_chapter server now chapter w = (failed, w1)"
    unfolding failed_def w1_def by (rule process_chapter_failed_exact[OF u e(1)])
  have fl: "content failed = None" "error failed = Some ''Failed to fetch content''"
    by (simp_all add: failed_def)
  note s = chapter_loop_unfold[OF p, of slug E n i rest acc pc]
  from chapter_loop_prefix[of server now slug E n "i + 1" rest "acc @ [failed]" "pc + 1"
      "after_chapter now slug E n i (acc @ [failed]) (pc + 1) w1"]
  obtain more w2 where l:
    "chapter_loop server now slug E n (i + 1) rest (acc @ [failed]) (pc + 1)
       (after_chapter now slug E n i (acc @ [failed]) (pc + 1) w1) = ((acc @ [failed]) @ more, w2)"
    "length more = length rest" by blast
  have "chapter_loop server now slug E n i (chapter # rest) acc pc w = (acc @ failed # more, w2)"
    unfolding s l(1) by simp
  with e p fl s l(2) failed_def w1_def show ?thesis by blast
qed

text \<open>
  Witness for C7: the server raises on every request for chapter c1. Its record ends
  with no content and the error mark, after three requests (and the two waits of the
  exception branch); the loop then fetches chapter c2, which succeeds.
\<close>

theorem retry_exhaustion_witness:
  "process_chapter (\<lambda>k u. Raises) (\<lambda>k. ''2026-01-01T00:00:00'')
     (chapter_info (Some ''c1'') (Some ''1'') (Some ''One'') (Some ''http://x/chapter/c1'') None ''novel'')
     \<lparr>trace = [], clock_reads = 0\<rparr>
   = ((chapter_info (Some ''c1'') (Some ''1'') (Some ''One'') (Some ''http://x/chapter/c1'') None ''novel'')
        \<lparr>content := None, scraped_at := Some ''2026-01-01T00:00:00'',
         content_scraped_at := Some ''2026-01-01T00:00:00'',
         error := Some ''Failed to fetch content''\<rparr>,
      \<lparr>trace = [Get ''http://x/chapter/c1'', Sleep 2, Get ''http://x/chapter/c1'', Sleep 4,
                Get ''http://x/chapter/c1''],
       clock_reads = 2\<rparr>) \<and>
   map (\<lambda>c. (chapter_id c, content c, error c))
     (fst (chapter_loop (\<lambda>k u. if u = ''http://x/chapter/c1'' then Raises
                                 else ContentText ''Once upon a time, far away'')
        (\<lambda>k. ''2026-01-01T00:00:00'') ''novel'' [] 2 1
        [chapter_info (Some ''c1'') (Some ''1'') (Some ''One'') (Some ''http://x/chapter/c1'') None ''novel'',
         chapter_info (Some ''c2'') (Some ''2'') (Some ''Two'') (Some ''http://x/chapter/c2'') None ''novel'']
        [] 0 \<lparr>trace = [], clock_reads = 0\<rparr>))
   = [(Some ''c1'', None, Some ''Failed to fetch content''),
      (Some ''c2'', Some ''Once upon a time, far away'', None)]"
  using retry_exhaustion
    [of "chapter_info (Some ''c1'') (Some ''1'') (Some ''One'') (Some ''http://x/chapter/c1'') None ''novel''"
        "''http://x/chapter/c1''" "\<lambda>k u. Raises" "\<lparr>trace = [], clock_reads = 0\<rparr>"
        "\<lambda>k. ''2026-01-01T00:00:00''"]
  by (simp add: process_chapter_def get_current_timestamp_def truthy_def chapter_info_def number_def
        attempt_fails_def fetch_eval save_partial_novel_data_def merge_chapters_def
        existing_ids_def existing_numbers_def Let_def)

text \<open>
  C4. With the default delay 2 and three attempts: when every attempt raises, the
  fetcher waits 2 after the first and 4 after the second attempt. When every attempt
  finds no content element, or finds text that is too short, the three requests
  follow each other with no wait between them.
\<close>

theorem backoff_only_after_exceptions:
  "get_chapter_content_with_retry (\<lambda>k u. Raises) ''http://x/chapter/c1'' 3 2 []
     = (None, [Get ''http://x/chapter/c1'', Sleep 2, Get ''http://x/chapter/c1'', Sleep 4,
               Get ''http://x/chapter/c1'']) \<and>
   get_chapter_content_with_retry (\<lambda>k u. NoContentElem) ''http://x/chapter/c1'' 3 2 []
     = (None, [Get ''http://x/chapter/c1'', Get ''http://x/chapter/c1'',
               Get ''http://x/chapter/c1'']) \<and>
   get_chapter_content_with_retry (\<lambda>k u. ContentText ''too short'') ''http://x/chapter/c1'' 3 2 []
     = (None, [Get ''http://x/chapter/c1'', Get ''http://x/chapter/c1'',
               Get ''http://x/chapter/c1''])"
  by (simp add: fetch_eval)

lemma retry_loop_same_text:
  assumes "\<And>k. server k u = ContentText body"
  shows "retry_loop server u mr d attempts tr =
     (if attempts \<noteq> [] \<and> 10 < length (strip body) then (Some body, tr @ [Get u])
      else (None, tr @ replicate (length attempts) (Get u)))"
proof (induction attempts arbitrary: tr)
  case Nil
  then show ?case by simp
next
  case (Cons a rest)
  have "10 < length (strip body) \<Longrightarrow> body \<noteq> []"
    by (auto simp: strip_def)
  then show ?case
    using assms Cons.IH[of "tr @ [Get u]"] by (auto simp: replicate_app_Cons_same)
qed

text \<open>
  C5 (as amended). When the server answers every request for the URL with the same
  text, the fetcher (three attempts) treats it as a failure exactly when its trimmed
  length is at most 10 characters: it then asks three times and returns no content.
  Text of 11 or more characters after trimming is returned at the first attempt.
\<close>

theorem short_content_boundary:
  assumes "\<forall>k. server k u = ContentText body"
  shows "get_chapter_content_with_retry server u 3 delay tr =
     (if length (strip body) \<le> 10 then (None, tr @ [Get u, Get u, Get u])
      else (Some body, tr @ [Get u]))"
  using assms retry_loop_same_text[of server u body 3 delay "[0..<3]" tr]
  by (auto simp: get_chapter_content_with_retry_def numeral_3_eq_3)

text \<open>Witness for C5: a text of eleven characters is returned at the first attempt.\<close>

theorem short_content_boundary_witness:
  "get_chapter_content_with_retry (\<lambda>k u. ContentText ''abcdefghijk'') ''http://x/chapter/c1'' 3 2 []
     = (Some ''abcdefghijk'', [Get ''http://x/chapter/c1''])"
  using short_content_boundary
    [of "\<lambda>k u. ContentText ''abcdefghijk''" "''http://x/chapter/c1''" "''abcdefghijk''" 2 "[]"]
  by (simp add: strip_def is_space_def)

text \<open>
  Counterexample to C5 as stated: a text whose trimmed length is exactly 10 is not
  accepted; all three attempts fail on it and the fetcher returns no content.
\<close>

theorem ten_characters_rejected_counterexample:
  "length (strip ''abcdefghij'') = 10 \<and>
   get_chapter_content_with_retry (\<lambda>k u. ContentText ''abcdefghij'') ''http://x/chapter/c1'' 3 2 []
     = (None, [Get ''http://x/chapter/c1'', Get ''http://x/chapter/c1'',
               Get ''http://x/chapter/c1''])"
  by (simp add: fetch_eval)

section \<open>Properties of the sort pass\<close>

lemma less_eq_ordered_float_finite [simp]:
  "Finite a \<le> Finite b \<longleftrightarrow> a \<le> b" "Finite a \<le> PosInf" "\<not> PosInf \<le> Finite a"
  "Finite a < Finite b \<longleftrightarrow> a < b" "Finite a < PosInf" "\<not> PosInf < Finite a"
  by (auto simp: less_ordered_float_def)

lemmas sort_eval =
  sort_chapters_def chapter_key_def chapter_info_def number_def findall_numbers.simps
  float_decimal_def is_digit_def nat_of_digits_def digit_val_def

lemma map_Num_eq: "map Num xs = map Num ys \<longleftrightarrow> xs = ys"
  by (simp add: inj_map_eq_map inj_def)

lemma ordered_keys_map_Num: "ordered_keys (map Num os) = Some os"
  by (induction os) auto

lemma ordered_keys_Some: "ordered_keys ks = Some os \<longleftrightarrow> ks = map Num os"
proof
  show "ordered_keys ks = Some os \<Longrightarrow> ks = map Num os"
  proof (induction ks arbitrary: os)
    case Nil
    then show ?case by simp
  next
    case (Cons k ks)
    show ?case
    proof (cases k)
      case NaN
      with Cons.prems show ?thesis by simp
    next
      case (Num a)
      with Cons.prems obtain os' where "ordered_keys ks = Some os'" "os = a # os'"
        by (auto split: option.splits)
      with Cons.IH[of os'] Num show ?thesis by simp
    qed
  qed
next
  show "ks = map Num os \<Longrightarrow> ordered_keys ks = Some os"
    by (simp add: ordered_keys_map_Num)
qed

lemma ordered_keys_None: "ordered_keys ks = None \<longleftrightarrow> NaN \<in> set ks"
proof (induction ks)
  case Nil
  then show ?case by simp
next
  case (Cons k ks)
  then show ?case by (cases k) (auto split: option.splits)
qed

lemma sorted_wrt_py_le_Num: "sorted_wrt py_le (map Num os) \<longleftrightarrow> sorted os"
  by (simp add: sorted_wrt_map)

lemma sorted_keys_of_pairs: "sorted_wrt py_le (map Num (map fst (sort_key fst zs)))"
  unfolding sorted_wrt_py_le_Num by (rule sorted_sort_key)

lemma chapter_keys_Inr:
  "chapter_keys pf cs = Inr ks \<Longrightarrow> list_all2 (\<lambda>c k. chapter_key pf c = Inr k) cs ks"
proof (induction cs arbitrary: ks)
  case Nil
  then show ?case by simp
next
  case (Cons c cs)
  from Cons.prems obtain k ks' where
    "chapter_key pf c = Inr k" "chapter_keys pf cs = Inr ks'" "ks = k # ks'"
    by (auto split: sum.splits)
  with Cons.IH[of ks'] show ?case by simp
qed

lemma chapter_keys_pairs:
  "(\<forall>p\<in>set zs. chapter_key pf (snd p) = Inr (Num (fst p))) \<Longrightarrow>
   chapter_keys pf (map snd zs) = Inr (map Num (map fst zs))"
  by (induction zs) auto

lemma zip_keys_pairs:
  "list_all2 (\<lambda>c k. chapter_key pf c = Inr k) cs (map Num os) \<Longrightarrow>
   \<forall>p\<in>set (zip os cs). chapter_key pf (snd p) = Inr (Num (fst p))"
proof (induction cs arbitrary: os)
  case Nil
  then show ?case by simp
next
  case (Cons c cs)
  then show ?case by (cases os) auto
qed

text \<open>
  With a NaN among the keys the result is what the builtin returns, not a sort.
\<close>

lemma sort_chapters_nan:
  assumes "chapter_keys pf cs = Inr ks" and "NaN \<in> set ks"
  shows "sort_chapters pf sorted_nan cs = Inr (sorted_nan ks cs)"
  using assms by (simp add: sort_chapters_def ordered_keys_None[symmetric])

text \<open>
  When the sort returns and no key is NaN, its result is sorted by the key, holds the
  same records, and keeps records of equal key in their prior order.
\<close>

lemma sort_chapters_sorted:
  assumes "sort_chapters pf sorted_nan cs = Inr r"
    and nonan: "\<forall>c\<in>set cs. chapter_key pf c \<noteq> Inr NaN"
  shows "sorted_by_number pf r" and "mset r = mset cs"
    and "filter (\<lambda>c. chapter_key pf c = Inr k) r = filter (\<lambda>c. chapter_key pf c = Inr k) cs"
proof -
  from assms(1) obtain ks where ks: "chapter_keys pf cs = Inr ks"
    by (auto simp: sort_chapters_def split: sum.splits)
  then have l2: "list_all2 (\<lambda>c k. chapter_key pf c = Inr k) cs ks"
    by (rule chapter_keys_Inr)
  have "NaN \<notin> set ks"
  proof
    assume "NaN \<in> set ks"
    then obtain j where "j < length ks" "ks ! j = NaN" by (auto simp: in_set_conv_nth)
    with l2 have "chapter_key pf (cs ! j) = Inr NaN" "j < length cs"
      by (auto simp: list_all2_conv_all_nth)
    with nonan show False by auto
  qed
  then obtain os where os: "ordered_keys ks = Some os"
    using ordered_keys_None[of ks] by (cases "ordered_keys ks") auto
  then have kos: "ks = map Num os" by (simp add: ordered_keys_Some)
  from assms(1) ks os have r: "r = map snd (sort_key fst (zip os cs))"
    by (simp add: sort_chapters_def)
  from l2 have len: "length cs = length os" unfolding kos by (auto dest: list_all2_lengthD)
  have pairs0: "\<forall>p\<in>set (zip os cs). chapter_key pf (snd p) = Inr (Num (fst p))"
    using zip_keys_pairs l2 unfolding kos by blast
  then have pairs: "\<forall>p\<in>set (sort_key fst (zip os cs)). chapter_key pf (snd p) = Inr (Num (fst p))"
    by simp
  have "chapter_keys pf r = Inr (map Num (map fst (sort_key fst (zip os cs))))"
    unfolding r by (rule chapter_keys_pairs[OF pairs])
  then show "sorted_by_number pf r"
    using sorted_keys_of_pairs[of "zip os cs"] by (simp add: sorted_by_number_def)
  have "mset r = mset (map snd (zip os cs))"
    unfolding r by simp
  then show "mset r = mset cs" using len by simp
  show "filter (\<lambda>c. chapter_key pf c = Inr k) r = filter (\<lambda>c. chapter_key pf c = Inr k) cs"
  proof (cases k)
    case NaN
    have "filter (\<lambda>c. chapter_key pf c = Inr k) cs = []"
      using nonan NaN by (auto simp: filter_empty_conv)
    moreover have "set r = set cs"
      using \<open>mset r = mset cs\<close> by (rule mset_eq_setD)
    then have "filter (\<lambda>c. chapter_key pf c = Inr k) r = []"
      using nonan NaN by (auto simp: filter_empty_conv)
    ultimately show ?thesis by simp
  next
    case (Num a)
    have "filter (\<lambda>c. chapter_key pf c = Inr k) r =
          map snd (filter (\<lambda>p. fst p = a) (sort_key fst (zip os cs)))"
      unfolding r filter_map using pairs Num
      by (intro arg_cong[where f = "map snd"] filter_cong) auto
    also have "\<dots> = map snd (filter (\<lambda>p. fst p = a) (zip os cs))"
      by (simp add: sort_key_stable)
    also have "\<dots> = filter (\<lambda>c. chapter_key pf c = Inr k) (map snd (zip os cs))"
      unfolding filter_map using pairs0 Num
      by (intro arg_cong[where f = "map snd"] filter_cong) auto
    finally show ?thesis using len by simp
  qed
qed

text \<open>
  The key of a record whose number is not null exists as soon as \<open>float\<close> accepts
  every numeric token, as Python's does; the sort of such records returns.
\<close>

lemma chapter_key_total:
  assumes "number_field c \<noteq> Null"
    and "\<And>s t. pf s = None \<Longrightarrow> t \<in> set (findall_numbers s) \<Longrightarrow> pf t \<noteq> None"
  shows "\<exists>k. chapter_key pf c = Inr k"
proof -
  from assms(1) obtain num where n: "dict_get_default (number_field c) ''0'' = Some num"
    by (cases "number_field c") auto
  show ?thesis
  proof (cases "pf num")
    case (Some v)
    with n show ?thesis by (simp add: chapter_key_def)
  next
    case None
    show ?thesis
    proof (cases "findall_numbers num")
      case Nil
      with n None show ?thesis by (simp add: chapter_key_def)
    next
      case (Cons tok rest)
      then have "tok \<in> set (findall_numbers num)" by simp
      from assms(2)[OF None this] obtain v where "pf tok = Some v" by auto
      with n None Cons show ?thesis by (simp add: chapter_key_def)
    qed
  qed
qed

lemma sort_chapters_total:
  assumes "\<And>c. c \<in> set cs \<Longrightarrow> number_field c \<noteq> Null"
    and "\<And>s t. pf s = None \<Longrightarrow> t \<in> set (findall_numbers s) \<Longrightarrow> pf t \<noteq> None"
  shows "\<exists>r. sort_chapters pf sorted_nan cs = Inr r"
proof -
  have "\<exists>ks. chapter_keys pf cs = Inr ks"
    using assms(1)
  proof (induction cs)
    case Nil
    then show ?case by simp
  next
    case (Cons c cs)
    then obtain ks where "chapter_keys pf cs = Inr ks" by auto
    moreover obtain k where "chapter_key pf c = Inr k"
      using chapter_key_total[of c pf] Cons.prems assms(2) by auto
    ultimately show ?case by auto
  qed
  then show ?thesis by (auto simp: sort_chapters_def split: option.splits)
qed

text \<open>
  The sort example of the spec (section 8): the order 1, 2.5, 3, 10, xyz.
\<close>

lemma sort_example:
  "sort_chapters float_decimal sorted_nan
     [chapter_info None (Some ''3'') None None None ''novel'',
      chapter_info None (Some ''1'') None None None ''novel'',
      chapter_info None (Some ''2.5'') None None None ''novel'',
      chapter_info None (Some ''abc 10'') None None None ''novel'',
      chapter_info None (Some ''xyz'') None None None ''novel'']
   = Inr [chapter_info None (Some ''1'') None None None ''novel'',
      chapter_info None (Some ''2.5'') None None None ''novel'',
      chapter_info None (Some ''3'') None None None ''novel'',
      chapter_info None (Some ''abc 10'') None None None ''novel'',
      chapter_info None (Some ''xyz'') None None None ''novel'']"
  by (simp add: sort_eval)

text \<open>
  A record without the key \<open>number\<close> is sorted as chapter 0.
\<close>

lemma missing_number_key_sorts_as_zero:
  "chapter_key float_decimal
     ((chapter_info None None None None None ''novel'')\<lparr>number_field := Missing\<rparr>)
   = Inr (Num (Finite 0))"
  by (simp add: sort_eval)

text \<open>
  C8. A list that holds a record whose number is null (a chapter card without number
  element): the key function raises TypeError on it, inside its own handler, and
  \<open>sort_chapters\<close> fails instead of returning a list.
\<close>

theorem sort_chapters_fails_on_null_number:
  "sort_chapters float_decimal sorted_nan
     [chapter_info (Some ''c1'') (Some ''1'') (Some ''One'') None None ''novel'',
      chapter_info None None (Some ''Prologue'') None None ''novel'']
   = Inl TypeError"
  by (simp add: sort_eval)

section \<open>Properties of the saves\<close>

text \<open>Fetching and pausing write no file; a checkpoint writes one dataset.\<close>

lemma written_append: "written (xs @ ys) = written xs @ written ys"
  by (induction xs rule: written.induct) auto

lemma retry_loop_trace:
  "\<exists>evs. snd (retry_loop server u mr d attempts tr) = tr @ evs \<and> written evs = []"
proof (induction attempts arbitrary: tr)
  case Nil
  then show ?case by simp
next
  case (Cons a rest)
  have step: "\<exists>evs. snd (retry_loop server u mr d rest (tr @ pre)) = tr @ evs \<and> written evs = []"
    if "written pre = []" for pre
  proof -
    from Cons.IH[of "tr @ pre"] obtain evs where
      "snd (retry_loop server u mr d rest (tr @ pre)) = (tr @ pre) @ evs" "written evs = []" by blast
    with that show ?thesis
      by (intro exI[of _ "pre @ evs"]) (simp add: written_append)
  qed
  show ?case
  proof (cases "server (requests_made tr) u")
    case Raises
    then show ?thesis
      using step[of "[Get u]"] step[of "[Get u, Sleep (d * (a + 1))]"] by simp
  next
    case NoContentElem
    then show ?thesis using step[of "[Get u]"] by simp
  next
    case (ContentText body)
    show ?thesis
    proof (cases "body \<noteq> [] \<and> 10 < length (strip body)")
      case True
      with ContentText show ?thesis by (intro exI[of _ "[Get u]"]) simp
    next
      case False
      with ContentText show ?thesis using step[of "[Get u]"] by auto
    qed
  qed
qed

lemma process_chapter_written:
  assumes "process_chapter server now c w = (dn, w1)"
  shows "written (trace w1) = written (trace w)"
proof -
  have r: "written t = written (trace w)"
    if "get_chapter_content_with_retry server u 3 2 (trace w) = (b, t)" for u b t
    using retry_loop_trace[of server u 3 2 "[0..<3]" "trace w"] that
    by (auto simp: get_chapter_content_with_retry_def written_append)
  show ?thesis
    using assms r
    by (auto simp: process_chapter_def get_current_timestamp_def Let_def
          split: if_splits option.splits prod.splits)
qed


lemma save_partial_written:
  "written (trace (save_partial_novel_data now slug E new w)) =
     written (trace w) @
       [\<lparr>total_chapters = length (merge_chapters E new), is_partial_save = True,
         chapters = merge_chapters E new\<rparr>]"
  by (simp add: save_partial_novel_data_def get_current_timestamp_def Let_def written_append)


lemma after_chapter_written:
  "written (trace (after_chapter now slug E n i all_new k w1)) =
     written (trace w1) @
       (if k mod 10 = 0 \<or> k = n then [partial_dataset (merge_chapters E all_new)] else [])"
  by (simp add: after_chapter_def Let_def written_append save_partial_written partial_dataset_def)

text \<open>
  The checkpoints of the loop: one after every tenth processed chapter and one after
  the last, each holding the merge of the existing chapters with the chapters
  processed so far.
\<close>

lemma chapter_loop_written:
  assumes "chapter_loop server now slug E n i stubs acc pc w = (all_new, w')"
    and "length acc = pc"
  shows "written (trace w') = written (trace w) @
           map (\<lambda>k. partial_dataset (merge_chapters E (take k all_new)))
             (filter (\<lambda>k. k mod 10 = 0 \<or> k = n) [pc + 1 ..< pc + length stubs + 1])"
  using assms
proof (induction stubs arbitrary: i acc pc w)
  case Nil
  then show ?case by simp
next
  case (Cons c rest)
  obtain dn w1 where p: "process_chapter server now c w = (dn, w1)"
    by (cases "process_chapter server now c w")
  define w3 where "w3 = after_chapter now slug E n i (acc @ [dn]) (pc + 1) w1"
  have loop: "chapter_loop server now slug E n (i + 1) rest (acc @ [dn]) (pc + 1) w3 = (all_new, w')"
    using Cons.prems(1) unfolding chapter_loop_unfold[OF p] w3_def .
  from chapter_loop_prefix[of server now slug E n "i + 1" rest "acc @ [dn]" "pc + 1" w3] loop
  obtain more where all_new: "all_new = (acc @ [dn]) @ more" by auto
  have tk: "take (pc + 1) all_new = acc @ [dn]"
    using Cons.prems(2) by (simp add: all_new)
  have len: "length (acc @ [dn]) = pc + 1" using Cons.prems(2) by simp
  have w3: "written (trace w3) = written (trace w) @
      (if (pc + 1) mod 10 = 0 \<or> pc + 1 = n
       then [partial_dataset (merge_chapters E (take (pc + 1) all_new))] else [])"
    unfolding w3_def after_chapter_written tk using process_chapter_written[OF p] by simp
  have upt: "[pc + 1 ..< pc + length (c # rest) + 1] = (pc + 1) # [pc + 1 + 1 ..< pc + 1 + length rest + 1]"
    by (simp add: upt_rec)
  show ?case
    unfolding Cons.IH[OF loop len] w3 upt by simp
qed

text \<open>
  C3 (as amended). The second pass for a novel returns, and no chapter of the merged
  list has the key NaN. Then the run writes, in this order: a checkpoint after every
  tenth processed chapter and after the last one, marked partial, holding the merge of
  the existing chapters with the chapters processed so far in merge order (no sort
  pass); and last the final save, marked complete, whose chapters are the sorted merge
  of the existing chapters with all processed ones: sorted by the key, and a
  rearrangement of that merge.
\<close>

theorem final_save_sorted:
  assumes run: "second_pass_novel server now pf sorted_nan slug E stubs w = (Inr r, w')"
    and new: "chapter_loop server now slug E (length stubs) 1 stubs [] 0 w = (new, w1)"
    and nonan: "\<forall>c\<in>set (merge_chapters E new). chapter_key pf c \<noteq> Inr NaN"
  shows "written (trace w') =
           written (trace w) @
           map (\<lambda>k. partial_dataset (merge_chapters E (take k new)))
             (filter (\<lambda>k. k mod 10 = 0 \<or> k = length stubs) [1 ..< length stubs + 1]) @
           [complete_dataset r] \<and>
         length new = length stubs \<and>
         sort_chapters pf sorted_nan (merge_chapters E new) = Inr r \<and>
         sorted_by_number pf r \<and>
         mset r = mset (merge_chapters E new)"
proof -
  from run new have s: "sort_chapters pf sorted_nan (merge_chapters E new) = Inr r"
    and w': "w' = save_complete_novel_to_json slug r w1"
    by (auto simp: second_pass_novel_def process_new_chapters_def split: sum.splits)
  from chapter_loop_written[OF new] have ps:
    "written (trace w1) = written (trace w) @
       map (\<lambda>k. partial_dataset (merge_chapters E (take k new)))
         (filter (\<lambda>k. k mod 10 = 0 \<or> k = length stubs) [1 ..< length stubs + 1])"
    by simp
  have wr: "written (trace w') = written (trace w1) @ [complete_dataset r]"
    by (simp add: w' save_complete_novel_to_json_def written_append complete_dataset_def)
  from chapter_loop_prefix[of server now slug E "length stubs" 1 stubs "[]" 0 w] new
  have ln: "length new = length stubs" by auto
  from sort_chapters_sorted(1,2)[OF s nonan] s ln wr ps show ?thesis by simp
qed

text \<open>
  The checkpoint example of the spec (section 8): 23 chapters give the writes 10, 20, 23.
\<close>

lemma checkpoint_boundary_example:
  "filter (\<lambda>k. k mod 10 = 0 \<or> k = 23) [1 ..< 23 + 1] = [10, 20, (23::nat)]"
  by (simp add: upt_rec)

lemmas run_eval =
  second_pass_novel_def process_new_chapters_def process_chapter_def save_partial_novel_data_def
  save_complete_novel_to_json_def get_current_timestamp_def get_chapter_content_with_retry_def
  upt_rec requests_made_def strip_def is_space_def truthy_def merge_chapters_def existing_ids_def
  existing_numbers_def sorted_by_number_def Let_def

text \<open>
  A run on a novel without existing data whose listing shows chapter 2 before chapter
  1; both fetches succeed. The file is written twice: the checkpoint after the last
  chapter, marked partial, holds the order 2, 1; the final save holds the order 1, 2.
\<close>

lemma run_example_writes:
  "map (\<lambda>d. (is_partial_save d, map number (chapters d), sorted_by_number float_decimal (chapters d)))
     (written (trace (snd (second_pass_novel (\<lambda>k u. ContentText ''Once upon a time, far away'')
        (\<lambda>k. ''2026-01-01T00:00:00'') float_decimal (\<lambda>ks cs. cs) ''novel'' []
        [chapter_info (Some ''c2'') (Some ''2'') (Some ''Two'') (Some ''http://x/chapter/c2'') None ''novel'',
         chapter_info (Some ''c1'') (Some ''1'') (Some ''One'') (Some ''http://x/chapter/c1'') None ''novel'']
        \<lparr>trace = [], clock_reads = 0\<rparr>))))
   = [(True, [Some ''2'', Some ''1''], False), (False, [Some ''1'', Some ''2''], True)]"
  by (simp add: run_eval sort_eval)

text \<open>
  Witness for C3: the run of the example above returns the chapters in the order 1, 2;
  it writes one checkpoint and then, last, the complete and sorted dataset.
\<close>

theorem final_save_sorted_witness:
  "\<exists>r w'.
     second_pass_novel (\<lambda>k u. ContentText ''Once upon a time, far away'')
        (\<lambda>k. ''2026-01-01T00:00:00'') float_decimal (\<lambda>ks cs. cs) ''novel'' []
        [chapter_info (Some ''c2'') (Some ''2'') (Some ''Two'') (Some ''http://x/chapter/c2'') None ''novel'',
         chapter_info (Some ''c1'') (Some ''1'') (Some ''One'') (Some ''http://x/chapter/c1'') None ''novel'']
        \<lparr>trace = [], clock_reads = 0\<rparr> = (Inr r, w') \<and>
     map number r = [Some ''1'', Some ''2''] \<and>
     sorted_by_number float_decimal r \<and>
     map is_partial_save (written (trace w')) = [True, False] \<and>
     last (written (trace w')) = complete_dataset r"
proof -
  let ?server = "\<lambda>(k::nat) (u::string). ContentText ''Once upon a time, far away''"
  let ?now = "\<lambda>k::nat. ''2026-01-01T00:00:00''"
  let ?stubs = "[chapter_info (Some ''c2'') (Some ''2'') (Some ''Two'') (Some ''http://x/chapter/c2'') None ''novel'',
         chapter_info (Some ''c1'') (Some ''1'') (Some ''One'') (Some ''http://x/chapter/c1'') None ''novel'']"
  let ?w = "\<lparr>trace = [], clock_reads = 0\<rparr>"
  obtain r w' where eq:
    "second_pass_novel ?server ?now float_decimal (\<lambda>ks cs. cs) ''novel'' [] ?stubs ?w = (Inr r, w')"
    and nums: "map number r = [Some ''1'', Some ''2'']"
    by (simp add: run_eval sort_eval)
  obtain new w1 where l:
    "chapter_loop ?server ?now ''novel'' [] (length ?stubs) 1 ?stubs [] 0 ?w = (new, w1)"
    and nn: "\<forall>c\<in>set (merge_chapters [] new). chapter_key float_decimal c \<noteq> Inr NaN"
    by (simp add: run_eval sort_eval)
  from final_save_sorted[OF eq l nn] nums eq show ?thesis
    by (simp add: upt_rec partial_dataset_def complete_dataset_def)
qed

text \<open>
  Counterexample to C3 as stated: in the same run, not every written dataset is
  sorted; the checkpoint holds chapter 2 before chapter 1.
\<close>

theorem checkpoint_not_sorted_counterexample:
  "\<not> list_all (\<lambda>d. sorted_by_number float_decimal (chapters d))
     (written (trace (snd (second_pass_novel (\<lambda>k u. ContentText ''Once upon a time, far away'')
        (\<lambda>k. ''2026-01-01T00:00:00'') float_decimal (\<lambda>ks cs. cs) ''novel'' []
        [chapter_info (Some ''c2'') (Some ''2'') (Some ''Two'') (Some ''http://x/chapter/c2'') None ''novel'',
         chapter_info (Some ''c1'') (Some ''1'') (Some ''One'') (Some ''http://x/chapter/c1'') None ''novel'']
        \<lparr>trace = [], clock_reads = 0\<rparr>))))"
  by (simp add: run_eval sort_eval)

end
